theory Spec2Isabelle
  imports Main
begin

section \<open>The ProteoAgent orchestrator (backend/proteosurf/agent.py, app.py)\<close>

text \<open>
  Strings are Python \<open>str\<close> values restricted to one-byte code points: a \<open>string\<close> is a
  list of characters, \<open>length\<close> counts them as Python's \<open>len\<close> does, and the slice
  \<open>s[:n]\<close> is \<open>take n s\<close>.
\<close>

subsection \<open>Tool registry and dispatcher\<close>

text \<open>
  A registered handler \<open>spec["fn"]\<close> is called with the keyword arguments of the request.
  It either returns its string result or raises an \<open>Exception\<close> whose \<open>str(exc)\<close> is the
  carried message. Every failure of the call itself (arguments that are no mapping, a
  keyword the function does not accept) is raised inside the same \<open>try\<close> and is an outcome
  \<open>Raises\<close> as well. Exceptions outside the class \<open>Exception\<close> (an interrupt, an exit of
  the interpreter) end the process and are not outcomes of a handler. The arguments
  stay an arbitrary type \<open>'a\<close>.
\<close>

datatype handler_outcome = Returns string | Raises string

type_synonym 'a handler = "'a \<Rightarrow> handler_outcome"

text \<open>\<open>TOOL_REGISTRY\<close>, read only through \<open>TOOL_REGISTRY.get(name)\<close> and \<open>spec["fn"]\<close>.\<close>

type_synonym 'a registry = "string \<Rightarrow> 'a handler option"

definition quoted :: "string \<Rightarrow> string" where
  "quoted name = [CHR 0x27] @ name @ [CHR 0x27]"

text \<open>\<open>_execute_tool(name, arguments)\<close>\<close>

definition execute_tool :: "'a registry \<Rightarrow> string \<Rightarrow> 'a \<Rightarrow> string" where
  "execute_tool TOOL_REGISTRY name arguments =
     (case TOOL_REGISTRY name of
        None \<Rightarrow> ''Error: Unknown tool '' @ quoted name
      | Some fn \<Rightarrow>
          (case fn arguments of
             Returns result \<Rightarrow> result
           | Raises exc \<Rightarrow> ''Error executing '' @ name @ '': '' @ exc))"

subsection \<open>Exceptions\<close>

text \<open>
  The exceptions that can leave \<open>chat\<close>: an error of the request to the completion
  service, a \<open>KeyError\<close> for a key missing in a response, and the \<open>ValueError\<close> and
  \<open>RecursionError\<close> that \<open>json.loads\<close> raises besides its \<open>JSONDecodeError\<close>.
\<close>

datatype error =
    GatewayError string
  | KeyError string
  | ValueError string
  | RecursionError string

subsection \<open>Parsed tool results\<close>

text \<open>
  \<open>json.loads(result_str)\<close> is a library function and is taken as a parameter. On a
  string it has one of three outcomes. It returns the decoded value: a dictionary for a
  JSON object (keys are strings, the values stay an arbitrary type \<open>'v\<close>), \<open>JsonOther\<close> for
  any other JSON value. It raises \<open>json.JSONDecodeError\<close> or \<open>TypeError\<close>, the two classes
  named by the \<open>except\<close> clause of the caller: the outcome \<open>Caught\<close>. Or it raises an
  exception of another class, which that clause does not catch: \<open>ValueError\<close> for an
  integer literal longer than the interpreter's limit of 4300 digits, \<open>RecursionError\<close>
  for brackets nested deeper than the recursion limit.
\<close>

datatype 'v json_value = JsonDict "string \<Rightarrow> 'v option" | JsonOther

datatype 'v loads_outcome = Loaded "'v json_value" | Caught | Escapes error

type_synonym 'v json_loads = "string \<Rightarrow> 'v loads_outcome"

subsection \<open>Stream events\<close>

datatype ('a, 'v) StreamEvent =
    TextDelta string
  | ToolUse string 'a string
  | ImageResult 'v string
  | AudioResult 'v string
  | StreamEnd

fun is_ToolUse :: "('a, 'v) StreamEvent \<Rightarrow> bool" where
  "is_ToolUse (ToolUse tool_name tool_input result) = True"
| "is_ToolUse ev = False"

subsection \<open>Responses and messages\<close>

text \<open>
  A content block of a response is a dictionary; each key the code reads is an optional
  field, \<open>None\<close> when the key is absent (the subscript then raises \<open>KeyError\<close>).
\<close>

record 'a block =
  b_type :: "string option"
  b_text :: "string option"
  b_id :: "string option"
  b_name :: "string option"
  b_input :: "'a option"

record 'a response =
  content :: "'a block list option"
  stop_reason :: "string option"

record tool_result =
  tool_use_id :: string
  result_content :: string

datatype 'a message_content =
    Plain string
  | Blocks "'a block list"
  | ToolResults "tool_result list"

record 'a message =
  role :: string
  body :: "'a message_content"

text \<open>
  \<open>_call_claude(messages)\<close> posts to the completion service: it raises (a non-200 status
  through \<open>raise_for_status\<close>, a failed request) or returns the decoded response. The
  service is a parameter of the model. Within one call of \<open>chat\<close> every request is longer
  than the one before, so a function of the request describes any sequence of answers.
\<close>

type_synonym 'a gateway = "'a message list \<Rightarrow> error + 'a response"

subsection \<open>One round: the loop over the content blocks\<close>

record ('a, 'v) round_state =
  has_tool_use :: bool
  text_parts :: "string list"
  tool_results :: "tool_result list"
  emitted :: "('a, 'v) StreamEvent list"

definition new_round :: "('a, 'v) round_state" where
  "new_round = \<lparr>has_tool_use = False, text_parts = [], tool_results = [], emitted = []\<rparr>"

text \<open>
  The \<open>try\<close> block around \<open>json.loads\<close>: the artifact events yielded for one tool result.
  Nothing is yielded where \<open>json.loads\<close> raises; whether the exception is caught is
  decided in \<open>process_block\<close>.
\<close>

definition artifacts :: "'v json_loads \<Rightarrow> string \<Rightarrow> string \<Rightarrow> ('a, 'v) StreamEvent list" where
  "artifacts loads tool_name result_str =
     (case loads result_str of
        Escapes e \<Rightarrow> []
      | Caught \<Rightarrow> []
      | Loaded JsonOther \<Rightarrow> []
      | Loaded (JsonDict result_data) \<Rightarrow>
          (case result_data ''image_base64'' of
             None \<Rightarrow> []
           | Some png \<Rightarrow> [ImageResult png (tool_name @ '' result'')])
          @ (case result_data ''audio_base64'' of
               None \<Rightarrow> []
             | Some mp3 \<Rightarrow> [AudioResult mp3 ''Voice narration'']))"

text \<open>
  The body of \<open>for block in response.get("content", [])\<close>. The result is the exception
  raised in the body, if any, and the state reached; events yielded before the exception
  have been seen by the consumer and stay in \<open>emitted\<close>. An exception of \<open>json.loads\<close>
  that the \<open>except\<close> clause does not name leaves the body after the first tool event.
\<close>

definition process_block ::
  "'a registry \<Rightarrow> 'v json_loads \<Rightarrow> 'a block \<Rightarrow> ('a, 'v) round_state
   \<Rightarrow> error option \<times> ('a, 'v) round_state" where
  "process_block TOOL_REGISTRY loads block s =
     (case b_type block of
        None \<Rightarrow> (Some (KeyError ''type''), s)
      | Some ty \<Rightarrow>
          if ty = ''text'' then
            (case b_text block of
               None \<Rightarrow> (Some (KeyError ''text''), s)
             | Some txt \<Rightarrow>
                 (None, s\<lparr>text_parts := text_parts s @ [txt],
                           emitted := emitted s @ [TextDelta txt]\<rparr>))
          else if ty = ''tool_use'' then
            (let s1 = s\<lparr>has_tool_use := True\<rparr> in
             case b_name block of
               None \<Rightarrow> (Some (KeyError ''name''), s1)
             | Some tool_name \<Rightarrow>
                 (case b_input block of
                    None \<Rightarrow> (Some (KeyError ''input''), s1)
                  | Some tool_input \<Rightarrow>
                      (let result_str = execute_tool TOOL_REGISTRY tool_name tool_input;
                           s2 = s1\<lparr>emitted := emitted s1
                                   @ [ToolUse tool_name tool_input '''']\<rparr>
                       in case loads result_str of
                            Escapes e \<Rightarrow> (Some e, s2)
                          | _ \<Rightarrow>
                              (let s3 = s2\<lparr>emitted := emitted s2
                                     @ artifacts loads tool_name result_str
                                     @ [ToolUse tool_name tool_input
                                          (take 2000 result_str)]\<rparr>
                               in case b_id block of
                                    None \<Rightarrow> (Some (KeyError ''id''), s3)
                                  | Some i \<Rightarrow>
                                      (None, s3\<lparr>tool_results := tool_results s3
                                          @ [\<lparr>tool_use_id = i,
                                               result_content
                                                 = take 4000 result_str\<rparr>]\<rparr>)))))
          else (None, s))"

fun process_blocks ::
  "'a registry \<Rightarrow> 'v json_loads \<Rightarrow> 'a block list \<Rightarrow> ('a, 'v) round_state
   \<Rightarrow> error option \<times> ('a, 'v) round_state" where
  "process_blocks TOOL_REGISTRY loads [] s = (None, s)"
| "process_blocks TOOL_REGISTRY loads (block # blocks) s =
     (case process_block TOOL_REGISTRY loads block s of
        (Some e, s') \<Rightarrow> (Some e, s')
      | (None, s') \<Rightarrow> process_blocks TOOL_REGISTRY loads blocks s')"

subsection \<open>The agent and its chat loop\<close>

record 'a ProteoAgent =
  api_key :: string
  model :: string
  conversation :: "'a message list"

text \<open>
  What one call of \<open>chat\<close> does: the events it yields in order, the message lists it
  sends to the gateway in order, the agent afterwards, and the exception that ended the
  generator, if one did.
\<close>

record ('a, 'v) chat_run =
  events :: "('a, 'v) StreamEvent list"
  calls :: "'a message list list"
  agent :: "'a ProteoAgent"
  raised :: "error option"

definition max_rounds :: nat where
  "max_rounds = 10"

text \<open>\<open>"\n".join(text_parts)\<close>\<close>

fun join_lines :: "string list \<Rightarrow> string" where
  "join_lines [] = []"
| "join_lines [part] = part"
| "join_lines (part # parts) = part @ [CHR 0x0A] @ join_lines parts"

definition yielded :: "('a, 'v) StreamEvent list \<Rightarrow> ('a, 'v) chat_run \<Rightarrow> ('a, 'v) chat_run" where
  "yielded evs run = run\<lparr>events := evs @ events run\<rparr>"

definition called :: "'a message list \<Rightarrow> ('a, 'v) chat_run \<Rightarrow> ('a, 'v) chat_run" where
  "called messages run = run\<lparr>calls := messages # calls run\<rparr>"

definition stopped :: "'a ProteoAgent \<Rightarrow> error option \<Rightarrow> ('a, 'v) chat_run" where
  "stopped self exc = \<lparr>events = [], calls = [], agent = self, raised = exc\<rparr>"

text \<open>
  \<open>for _ in range(max_rounds)\<close> with \<open>n\<close> iterations left: the run from the head of the
  loop body to the exit of the loop (by \<open>break\<close>, by exhaustion or by an exception).
\<close>

fun rounds ::
  "'a registry \<Rightarrow> 'v json_loads \<Rightarrow> 'a gateway \<Rightarrow> nat \<Rightarrow> 'a message list
   \<Rightarrow> 'a ProteoAgent \<Rightarrow> ('a, 'v) chat_run" where
  "rounds TOOL_REGISTRY loads call_claude 0 messages self = stopped self None"
| "rounds TOOL_REGISTRY loads call_claude (Suc n) messages self =
     called messages
       (case call_claude messages of
          Inl e \<Rightarrow> stopped self (Some e)
        | Inr response \<Rightarrow>
            (case process_blocks TOOL_REGISTRY loads
                    (case content response of None \<Rightarrow> [] | Some blocks \<Rightarrow> blocks) new_round of
               (Some e, s) \<Rightarrow> yielded (emitted s) (stopped self (Some e))
             | (None, s) \<Rightarrow>
                 yielded (emitted s)
                   (case content response of
                      None \<Rightarrow> stopped self (Some (KeyError ''content''))
                    | Some blocks \<Rightarrow>
                        if \<not> has_tool_use s \<or> stop_reason response = Some ''end_turn'' then
                          stopped
                            (self\<lparr>conversation := conversation self
                               @ [\<lparr>role = ''assistant'',
                                    body = Plain (join_lines (text_parts s))\<rparr>]\<rparr>)
                            None
                        else
                          rounds TOOL_REGISTRY loads call_claude n
                            (messages
                               @ [\<lparr>role = ''assistant'', body = Blocks blocks\<rparr>,
                                  \<lparr>role = ''user'', body = ToolResults (tool_results s)\<rparr>])
                            self)))"

text \<open>\<open>ProteoAgent.chat(user_message)\<close>: \<open>StreamEnd\<close> is yielded after the loop.\<close>

definition chat ::
  "'a registry \<Rightarrow> 'v json_loads \<Rightarrow> 'a gateway \<Rightarrow> 'a ProteoAgent \<Rightarrow> string
   \<Rightarrow> ('a, 'v) chat_run" where
  "chat TOOL_REGISTRY loads call_claude self user_message =
     (let self1 = self\<lparr>conversation := conversation self
                    @ [\<lparr>role = ''user'', body = Plain user_message\<rparr>]\<rparr>;
          run = rounds TOOL_REGISTRY loads call_claude max_rounds (conversation self1) self1
      in case raised run of
           None \<Rightarrow> run\<lparr>events := events run @ [StreamEnd]\<rparr>
         | Some e \<Rightarrow> run)"

text \<open>\<open>ProteoAgent.reset()\<close>\<close>

definition reset :: "'a ProteoAgent \<Rightarrow> 'a ProteoAgent" where
  "reset self = self\<lparr>conversation := []\<rparr>"

subsection \<open>The websocket endpoint (app.py)\<close>

datatype ('a, 'v) frame =
    TextFrame string
  | ToolFrame string 'a string
  | ImageFrame 'v string
  | AudioFrame 'v string
  | DoneFrame
  | SystemFrame string
  | ErrorFrame string

fun send_event :: "('a, 'v) StreamEvent \<Rightarrow> ('a, 'v) frame" where
  "send_event (TextDelta txt) = TextFrame txt"
| "send_event (ToolUse tool_name tool_input result) = ToolFrame tool_name tool_input result"
| "send_event (ImageResult png caption) = ImageFrame png caption"
| "send_event (AudioResult mp3 caption) = AudioFrame mp3 caption"
| "send_event StreamEnd = DoneFrame"

text \<open>\<open>str(exc)\<close>; the text of a \<open>KeyError\<close> is the quoted key.\<close>

fun str_error :: "error \<Rightarrow> string" where
  "str_error (GatewayError msg) = msg"
| "str_error (KeyError k) = quoted k"
| "str_error (ValueError msg) = msg"
| "str_error (RecursionError msg) = msg"

text \<open>\<open>str.strip()\<close> and \<open>str.lower()\<close> on one-byte code points.\<close>

definition isspace :: "char \<Rightarrow> bool" where
  "isspace c = (let n = (of_char c :: nat)
                in (9 \<le> n \<and> n \<le> 13) \<or> (28 \<le> n \<and> n \<le> 32) \<or> n = 133 \<or> n = 160)"

definition strip :: "string \<Rightarrow> string" where
  "strip s = rev (dropWhile isspace (rev (dropWhile isspace s)))"

definition lower_char :: "char \<Rightarrow> char" where
  "lower_char c = (let n = (of_char c :: nat)
                   in if (65 \<le> n \<and> n \<le> 90) \<or> (192 \<le> n \<and> n \<le> 222 \<and> n \<noteq> 215)
                      then char_of (n + 32) else c)"

definition lower :: "string \<Rightarrow> string" where
  "lower s = map lower_char s"

text \<open>
  One iteration of the \<open>while True\<close> loop of \<open>chat_ws\<close> on a received \<open>message\<close>: the
  frames sent, the gateway calls made, the agent afterwards, and whether the handler
  left the loop through its \<open>except Exception\<close> clause.
\<close>

record ('a, 'v) ws_step =
  frames :: "('a, 'v) frame list"
  gateway_calls :: "'a message list list"
  session :: "'a ProteoAgent"
  stopped_ws :: bool

definition chat_ws_step ::
  "'a registry \<Rightarrow> 'v json_loads \<Rightarrow> 'a gateway \<Rightarrow> 'a ProteoAgent \<Rightarrow> string
   \<Rightarrow> ('a, 'v) ws_step" where
  "chat_ws_step TOOL_REGISTRY loads call_claude self user_msg =
     (if user_msg = [] then
        \<lparr>frames = [], gateway_calls = [], session = self, stopped_ws = False\<rparr>
      else if lower (strip user_msg) = ''/reset'' then
        \<lparr>frames = [SystemFrame ''Conversation reset.''], gateway_calls = [],
         session = reset self, stopped_ws = False\<rparr>
      else
        (let run = chat TOOL_REGISTRY loads call_claude self user_msg in
         \<lparr>frames = map send_event (events run)
             @ (case raised run of None \<Rightarrow> [] | Some e \<Rightarrow> [ErrorFrame (str_error e)]),
          gateway_calls = calls run,
          session = agent run,
          stopped_ws = (raised run \<noteq> None)\<rparr>))"

subsection \<open>Reading a response\<close>

text \<open>
  The vocabulary of the properties below: which blocks are tool requests and which are
  text, which blocks carry every key the loop reads, the two tool events and the
  outcome that belong to one tool request, the blocks received in answer to a list of
  requests, and whether a response ends the turn and with which reply.
\<close>

definition is_tool_use :: "'a block \<Rightarrow> bool" where
  "is_tool_use block = (b_type block = Some ''tool_use'')"

definition is_text :: "'a block \<Rightarrow> bool" where
  "is_text block = (b_type block = Some ''text'')"

definition well_formed :: "'a block \<Rightarrow> bool" where
  "well_formed block =
     (case b_type block of
        None \<Rightarrow> False
      | Some ty \<Rightarrow>
          if ty = ''text'' then b_text block \<noteq> None
          else if ty = ''tool_use'' then
            b_name block \<noteq> None \<and> b_input block \<noteq> None \<and> b_id block \<noteq> None
          else True)"

text \<open>\<open>json.loads\<close> returns on the string or raises an exception that the loop catches.\<close>

definition parses :: "'v json_loads \<Rightarrow> string \<Rightarrow> bool" where
  "parses loads result_str = (case loads result_str of Escapes e \<Rightarrow> False | _ \<Rightarrow> True)"

text \<open>
  The block is well formed and, when it is a tool request, the result of its tool is a
  string that \<open>parses\<close>: the loop body then ends without an exception.
\<close>

definition completes :: "'a registry \<Rightarrow> 'v json_loads \<Rightarrow> 'a block \<Rightarrow> bool" where
  "completes TOOL_REGISTRY loads block =
     (well_formed block
      \<and> (case (b_type block, b_name block, b_input block) of
            (Some ty, Some tool_name, Some tool_input) \<Rightarrow>
              ty = ''tool_use''
              \<longrightarrow> parses loads (execute_tool TOOL_REGISTRY tool_name tool_input)
          | _ \<Rightarrow> True))"

definition invocations :: "'a registry \<Rightarrow> 'a block \<Rightarrow> ('a, 'v) StreamEvent list" where
  "invocations TOOL_REGISTRY block =
     (case (b_name block, b_input block) of
        (Some tool_name, Some tool_input) \<Rightarrow>
          [ToolUse tool_name tool_input '''',
           ToolUse tool_name tool_input
             (take 2000 (execute_tool TOOL_REGISTRY tool_name tool_input))]
      | _ \<Rightarrow> [])"

definition outcomes :: "'a registry \<Rightarrow> 'a block \<Rightarrow> tool_result list" where
  "outcomes TOOL_REGISTRY block =
     (case (b_name block, b_input block, b_id block) of
        (Some tool_name, Some tool_input, Some i) \<Rightarrow>
          [\<lparr>tool_use_id = i,
            result_content = take 4000 (execute_tool TOOL_REGISTRY tool_name tool_input)\<rparr>]
      | _ \<Rightarrow> [])"

definition received :: "'a gateway \<Rightarrow> 'a message list list \<Rightarrow> 'a block list" where
  "received call_claude sent =
     concat (map (\<lambda>messages. case call_claude messages of
                                 Inl e \<Rightarrow> []
                               | Inr response \<Rightarrow>
                                   (case content response of None \<Rightarrow> [] | Some blocks \<Rightarrow> blocks))
                 sent)"

definition texts :: "'a block list \<Rightarrow> string list" where
  "texts blocks =
     concat (map (\<lambda>block. case b_text block of None \<Rightarrow> [] | Some txt \<Rightarrow> [txt])
                 (filter is_text blocks))"

definition ends_turn :: "'a response \<Rightarrow> bool" where
  "ends_turn response =
     (case content response of
        None \<Rightarrow> False
      | Some blocks \<Rightarrow> \<not> list_ex is_tool_use blocks \<or> stop_reason response = Some ''end_turn'')"

definition reply :: "'a response \<Rightarrow> string" where
  "reply response =
     (case content response of None \<Rightarrow> [] | Some blocks \<Rightarrow> join_lines (texts blocks))"

subsection \<open>Concrete inputs used by the examples\<close>

definition no_tools :: "unit registry" where
  "no_tools = (\<lambda>name. None)"

definition boom :: "unit handler" where
  "boom = (\<lambda>arguments. Raises ''disk full'')"

definition lookup_tool :: "unit handler" where
  "lookup_tool = (\<lambda>arguments. Returns ''42'')"

definition demo_tools :: "unit registry" where
  "demo_tools = (\<lambda>name. if name = ''boom'' then Some boom
                         else if name = ''lookup'' then Some lookup_tool else None)"

definition failing_gateway :: "unit gateway" where
  "failing_gateway = (\<lambda>messages. Inl (GatewayError ''529 overloaded''))"

text \<open>A parser for results that are never JSON: every string is a \<open>JSONDecodeError\<close>.\<close>

definition no_json :: "string json_loads" where
  "no_json = (\<lambda>result_str. Caught)"

definition fresh_agent :: "unit ProteoAgent" where
  "fresh_agent = \<lparr>api_key = ''key'', model = ''claude'', conversation = []\<rparr>"

text \<open>A service that answers every request with the one text block \<open>hello back\<close>.\<close>

definition hello_gateway :: "unit gateway" where
  "hello_gateway = (\<lambda>messages. Inr
     \<lparr>content = Some [\<lparr>b_type = Some ''text'', b_text = Some ''hello back'', b_id = None,
                        b_name = None, b_input = None\<rparr>],
      stop_reason = Some ''end_turn''\<rparr>)"

text \<open>
  A service that never ends the turn: every response streams a line of text and requests
  the tool \<open>lookup\<close>.
\<close>

definition tool_response :: "unit response" where
  "tool_response =
     \<lparr>content = Some
        [\<lparr>b_type = Some ''text'', b_text = Some ''Still looking.'', b_id = None,
          b_name = None, b_input = None\<rparr>,
         \<lparr>b_type = Some ''tool_use'', b_text = None, b_id = Some ''toolu_1'',
          b_name = Some ''lookup'', b_input = Some ()\<rparr>],
      stop_reason = Some ''tool_use''\<rparr>"

definition tool_gateway :: "unit gateway" where
  "tool_gateway = (\<lambda>messages. Inr tool_response)"

text \<open>
  A service that first answers with text and a request for \<open>lookup\<close>, and ends the turn
  once the outcome has been sent back.
\<close>

definition two_step_gateway :: "unit gateway" where
  "two_step_gateway = (\<lambda>messages.
     if length messages = 1 then Inr
       \<lparr>content = Some
          [\<lparr>b_type = Some ''text'', b_text = Some ''Let me look.'', b_id = None,
            b_name = None, b_input = None\<rparr>,
           \<lparr>b_type = Some ''tool_use'', b_text = None, b_id = Some ''toolu_1'',
            b_name = Some ''lookup'', b_input = Some ()\<rparr>],
        stop_reason = Some ''tool_use''\<rparr>
     else Inr
       \<lparr>content = Some
          [\<lparr>b_type = Some ''text'', b_text = Some ''It is 42.'', b_id = None,
            b_name = None, b_input = None\<rparr>],
        stop_reason = Some ''end_turn''\<rparr>)"

definition long_result :: string where
  "long_result = replicate 5000 (CHR ''x'')"

definition long_tool :: "unit handler" where
  "long_tool = (\<lambda>arguments. Returns long_result)"

definition long_tools :: "unit registry" where
  "long_tools = (\<lambda>name. if name = ''dump'' then Some long_tool else None)"

definition dump_block :: "unit block" where
  "dump_block = \<lparr>b_type = Some ''tool_use'', b_text = None, b_id = Some ''toolu_9'',
                 b_name = Some ''dump'', b_input = Some ()\<rparr>"

definition snapshot_result :: string where
  "snapshot_result = ''{'' @ [CHR 0x22] @ ''image_base64'' @ [CHR 0x22] @ '': ''
                     @ [CHR 0x22] @ ''iVBORw0KGgo='' @ [CHR 0x22] @ ''}''"

definition snapshot_tool :: "unit handler" where
  "snapshot_tool = (\<lambda>arguments. Returns snapshot_result)"

definition view_tools :: "unit registry" where
  "view_tools = (\<lambda>name. if name = ''snapshot'' then Some snapshot_tool
                         else if name = ''lookup'' then Some lookup_tool else None)"

text \<open>A result that is one integer literal of 5000 digits, and a tool that returns it.\<close>

definition digits_result :: string where
  "digits_result = replicate 5000 (CHR ''1'')"

definition digits_tool :: "unit handler" where
  "digits_tool = (\<lambda>arguments. Returns digits_result)"

definition digits_tools :: "unit registry" where
  "digits_tools = (\<lambda>name. if name = ''digits'' then Some digits_tool else None)"

definition digits_block :: "unit block" where
  "digits_block = \<lparr>b_type = Some ''tool_use'', b_text = None, b_id = Some ''toolu_7'',
                   b_name = Some ''digits'', b_input = Some ()\<rparr>"

definition digits_gateway :: "unit gateway" where
  "digits_gateway = (\<lambda>messages. Inr
     \<lparr>content = Some [digits_block], stop_reason = Some ''tool_use''\<rparr>)"

text \<open>
  What \<open>json.loads\<close> does on the three results used here: the object with the image, the
  number \<open>42\<close>, and the integer literal over the digit limit, on which it raises
  \<open>ValueError\<close>. Every other string counts as no JSON.
\<close>

definition demo_loads :: "string json_loads" where
  "demo_loads = (\<lambda>result_str.
     if result_str = snapshot_result
     then Loaded (JsonDict (\<lambda>k. if k = ''image_base64'' then Some ''iVBORw0KGgo='' else None))
     else if result_str = ''42'' then Loaded JsonOther
     else if result_str = digits_result
     then Escapes (ValueError ''Exceeds the limit (4300 digits) for integer string conversion'')
     else Caught)"

definition snapshot_block :: "unit block" where
  "snapshot_block = \<lparr>b_type = Some ''tool_use'', b_text = None, b_id = Some ''toolu_2'',
                     b_name = Some ''snapshot'', b_input = Some ()\<rparr>"

definition lookup_block :: "unit block" where
  "lookup_block = \<lparr>b_type = Some ''tool_use'', b_text = None, b_id = Some ''toolu_1'',
                   b_name = Some ''lookup'', b_input = Some ()\<rparr>"

definition shouted_reset :: string where
  "shouted_reset = ''  /RESET '' @ [CHR 0x0A]"

definition busy_agent :: "unit ProteoAgent" where
  "busy_agent = \<lparr>api_key = ''key'', model = ''claude'',
                 conversation = [\<lparr>role = ''user'', body = Plain ''hello''\<rparr>,
                                 \<lparr>role = ''assistant'', body = Plain ''hello back''\<rparr>]\<rparr>"

section \<open>Auxiliary facts about one round and about the loop\<close>

lemma artifacts_not_ToolUse: "filter is_ToolUse (artifacts loads n r) = []"
  by (auto simp: artifacts_def split: option.splits loads_outcome.splits json_value.splits)

lemma artifacts_no_End: "StreamEnd \<notin> set (artifacts loads n r)"
  by (auto simp: artifacts_def split: option.splits loads_outcome.splits json_value.splits)

lemma artifacts_count_End: "count_list (artifacts loads n r) StreamEnd = 0"
  by (simp add: count_list_0_iff artifacts_no_End)

lemma process_block_no_End:
  "process_block reg loads b s = (err, s') \<Longrightarrow>
   count_list (emitted s') StreamEnd = count_list (emitted s) StreamEnd"
  by (auto simp: process_block_def Let_def artifacts_count_End
      split: option.splits loads_outcome.splits if_splits)

lemma process_block_ToolUse:
  "process_block reg loads b s = (None, s') \<Longrightarrow>
   filter is_ToolUse (emitted s')
   = filter is_ToolUse (emitted s) @ (if is_tool_use b then invocations reg b else [])"
  by (auto simp: process_block_def Let_def is_tool_use_def invocations_def artifacts_not_ToolUse
      split: option.splits loads_outcome.splits if_splits)

lemma process_block_results:
  "process_block reg loads b s = (None, s') \<Longrightarrow>
   tool_results s' = tool_results s @ (if is_tool_use b then outcomes reg b else [])"
  by (auto simp: process_block_def Let_def is_tool_use_def outcomes_def
      split: option.splits loads_outcome.splits if_splits)

lemma process_block_has_tool_use:
  "process_block reg loads b s = (None, s') \<Longrightarrow>
   has_tool_use s' = (has_tool_use s \<or> is_tool_use b)"
  by (auto simp: process_block_def Let_def is_tool_use_def
      split: option.splits loads_outcome.splits if_splits)

lemma process_block_completes:
  "completes reg loads b \<Longrightarrow> fst (process_block reg loads b s) = None"
  by (auto simp: process_block_def Let_def completes_def well_formed_def parses_def
      split: option.splits loads_outcome.splits if_splits)


lemma process_blocks_no_End:
  "process_blocks reg loads bs s = (err, s') \<Longrightarrow>
   count_list (emitted s') StreamEnd = count_list (emitted s) StreamEnd"
proof (induction bs arbitrary: s)
  case Nil
  then show ?case by simp
next
  case (Cons b bs)
  obtain e s1 where b: "process_block reg loads b s = (e, s1)"
    by (cases "process_block reg loads b s")
  show ?case
  proof (cases e)
    case None
    with b Cons.prems have "process_blocks reg loads bs s1 = (err, s')" by simp
    from Cons.IH [OF this] process_block_no_End [OF b] show ?thesis by simp
  next
    case (Some x)
    with b Cons.prems have "s' = s1" by simp
    with process_block_no_End [OF b] show ?thesis by simp
  qed
qed

lemma process_blocks_Cons_None:
  assumes "process_blocks reg loads (b # bs) s = (None, s')"
  obtains s1 where "process_block reg loads b s = (None, s1)"
    and "process_blocks reg loads bs s1 = (None, s')"
proof -
  obtain e s1 where b: "process_block reg loads b s = (e, s1)"
    by (cases "process_block reg loads b s")
  with assms have "e = None" by (cases e) auto
  with b assms that show thesis by simp
qed

lemma process_blocks_ToolUse:
  "process_blocks reg loads bs s = (None, s') \<Longrightarrow>
   filter is_ToolUse (emitted s')
   = filter is_ToolUse (emitted s) @ concat (map (invocations reg) (filter is_tool_use bs))"
proof (induction bs arbitrary: s)
  case Nil
  then show ?case by simp
next
  case (Cons b bs)
  from Cons.prems obtain s1 where b: "process_block reg loads b s = (None, s1)"
    and r: "process_blocks reg loads bs s1 = (None, s')"
    by (rule process_blocks_Cons_None)
  from Cons.IH [OF r] process_block_ToolUse [OF b] show ?case by simp
qed

lemma process_blocks_results:
  "process_blocks reg loads bs s = (None, s') \<Longrightarrow>
   tool_results s'
   = tool_results s @ concat (map (outcomes reg) (filter is_tool_use bs))"
proof (induction bs arbitrary: s)
  case Nil
  then show ?case by simp
next
  case (Cons b bs)
  from Cons.prems obtain s1 where b: "process_block reg loads b s = (None, s1)"
    and r: "process_blocks reg loads bs s1 = (None, s')"
    by (rule process_blocks_Cons_None)
  from Cons.IH [OF r] process_block_results [OF b] show ?case by simp
qed

lemma process_blocks_has_tool_use:
  "process_blocks reg loads bs s = (None, s') \<Longrightarrow>
   has_tool_use s' = (has_tool_use s \<or> list_ex is_tool_use bs)"
proof (induction bs arbitrary: s)
  case Nil
  then show ?case by simp
next
  case (Cons b bs)
  from Cons.prems obtain s1 where b: "process_block reg loads b s = (None, s1)"
    and r: "process_blocks reg loads bs s1 = (None, s')"
    by (rule process_blocks_Cons_None)
  from Cons.IH [OF r] process_block_has_tool_use [OF b] show ?case by auto
qed

lemma process_blocks_complete:
  "list_all (completes reg loads) bs \<Longrightarrow> fst (process_blocks reg loads bs s) = None"
proof (induction bs arbitrary: s)
  case Nil
  then show ?case by simp
next
  case (Cons b bs)
  then have "fst (process_block reg loads b s) = None"
    by (simp add: process_block_completes)
  then obtain s1 where "process_block reg loads b s = (None, s1)"
    by (cases "process_block reg loads b s") auto
  with Cons show ?case by simp
qed

lemma run_fields [simp]:
  "events (yielded evs run) = evs @ events run"
  "calls (yielded evs run) = calls run"
  "agent (yielded evs run) = agent run"
  "raised (yielded evs run) = raised run"
  "events (called m run) = events run"
  "calls (called m run) = m # calls run"
  "agent (called m run) = agent run"
  "raised (called m run) = raised run"
  "events (stopped self exc) = []"
  "calls (stopped self exc) = []"
  "agent (stopped self exc) = self"
  "raised (stopped self exc) = exc"
  by (simp_all add: yielded_def called_def stopped_def)

lemma rounds_Suc_cases [case_names gateway_error block_error no_content break continue]:
  fixes reg :: "'a registry" and loads :: "'v json_loads"
  obtains
    e where "gw m = Inl e"
      and "rounds reg loads gw (Suc n) m self = called m (stopped self (Some e))"
  | response e s where "gw m = Inr response"
      and "process_blocks reg loads (case content response of None \<Rightarrow> [] | Some bs \<Rightarrow> bs)
             new_round = (Some e, s)"
      and "rounds reg loads gw (Suc n) m self
             = called m (yielded (emitted s) (stopped self (Some e)))"
  | response where "gw m = Inr response" and "content response = None"
      and "rounds reg loads gw (Suc n) m self
             = called m (stopped self (Some (KeyError ''content'')))"
  | response bs s where "gw m = Inr response" and "content response = Some bs"
      and "process_blocks reg loads bs new_round = (None, s)"
      and "\<not> has_tool_use s \<or> stop_reason response = Some ''end_turn''"
      and "rounds reg loads gw (Suc n) m self
             = called m (yielded (emitted s)
                 (stopped (self\<lparr>conversation := conversation self
                    @ [\<lparr>role = ''assistant'', body = Plain (join_lines (text_parts s))\<rparr>]\<rparr>)
                  None))"
  | response bs s where "gw m = Inr response" and "content response = Some bs"
      and "process_blocks reg loads bs new_round = (None, s)"
      and "has_tool_use s" and "stop_reason response \<noteq> Some ''end_turn''"
      and "rounds reg loads gw (Suc n) m self
             = called m (yielded (emitted s)
                 (rounds reg loads gw n
                    (m @ [\<lparr>role = ''assistant'', body = Blocks bs\<rparr>,
                          \<lparr>role = ''user'', body = ToolResults (tool_results s)\<rparr>])
                    self))"
proof (cases "gw m")
  case (Inl e)
  then show thesis using that(1) by simp
next
  case (Inr response)
  obtain err s where pb:
    "process_blocks reg loads (case content response of None \<Rightarrow> [] | Some bs \<Rightarrow> bs)
       new_round = (err, s)"
    by (cases "process_blocks reg loads (case content response of None \<Rightarrow> [] | Some bs \<Rightarrow> bs)
       (new_round :: ('a, 'v) round_state)")
  show thesis
  proof (cases err)
    case (Some e)
    with Inr pb show thesis using that(2) by simp
  next
    case None
    note err = this
    show thesis
    proof (cases "content response")
      case None
      with Inr pb err have "s = new_round" by simp
      with Inr pb err None show thesis using that(3) by (simp add: new_round_def yielded_def)
    next
      case (Some bs)
      show thesis
      proof (cases "\<not> has_tool_use s \<or> stop_reason response = Some ''end_turn''")
        case True
        have "rounds reg loads gw (Suc n) m self
             = called m (yielded (emitted s)
                 (stopped (self\<lparr>conversation := conversation self
                    @ [\<lparr>role = ''assistant'', body = Plain (join_lines (text_parts s))\<rparr>]\<rparr>)
                  None))"
          using Inr pb err Some True by auto
        with Inr pb err Some True show thesis using that(4) by simp
      next
        case False
        have "rounds reg loads gw (Suc n) m self
             = called m (yielded (emitted s)
                 (rounds reg loads gw n
                    (m @ [\<lparr>role = ''assistant'', body = Blocks bs\<rparr>,
                          \<lparr>role = ''user'', body = ToolResults (tool_results s)\<rparr>])
                    self))"
          using Inr pb err Some False by auto
        with Inr pb err Some False show thesis using that(5) by simp
      qed
    qed
  qed
qed

lemma new_round_emitted [simp]: "emitted new_round = []"
  by (simp add: new_round_def)

lemma rounds_count_End:
  "count_list (events (rounds reg loads gw n m self)) StreamEnd = 0"
proof (induction n arbitrary: m)
  case 0
  then show ?case by simp
next
  case (Suc n)
  show ?case
  proof (cases rule: rounds_Suc_cases [of gw m reg loads n self])
    case (gateway_error e)
    then show ?thesis by simp
  next
    case (block_error response e s)
    with process_blocks_no_End [OF block_error(2)] show ?thesis by simp
  next
    case (no_content response)
    then show ?thesis by simp
  next
    case (break response bs s)
    with process_blocks_no_End [OF break(3)] show ?thesis by simp
  next
    case (continue response bs s)
    with process_blocks_no_End [OF continue(3)] Suc.IH show ?thesis by simp
  qed
qed

lemma rounds_calls_Suc:
  "calls (rounds reg loads gw (Suc n) m self)
   = m # tl (calls (rounds reg loads gw (Suc n) m self))"
  by simp

lemma rounds_gateway_error:
  "gw (last (calls (rounds reg loads gw (Suc n) m self))) = Inl e \<Longrightarrow>
   raised (rounds reg loads gw (Suc n) m self) = Some e"
proof (induction n arbitrary: m)
  case 0
  show ?case
    using "0.prems"
    by (cases rule: rounds_Suc_cases [of gw m reg loads 0 self]) auto
next
  case (Suc n)
  show ?case
  proof (cases rule: rounds_Suc_cases [of gw m reg loads "Suc n" self])
    case (continue response bs s)
    let ?m' = "m @ [\<lparr>role = ''assistant'', body = Blocks bs\<rparr>,
                    \<lparr>role = ''user'', body = ToolResults (tool_results s)\<rparr>]"
    have ne: "calls (rounds reg loads gw (Suc n) ?m' self) \<noteq> []"
      using rounds_calls_Suc [of reg loads gw n ?m' self] by (metis list.distinct(1))
    with continue(6) Suc.prems
    have "gw (last (calls (rounds reg loads gw (Suc n) ?m' self))) = Inl e"
      by simp
    from Suc.IH [OF this] continue(6) show ?thesis by simp
  qed (use Suc.prems in auto)
qed

lemma chat_fields:
  "calls (chat reg loads gw self msg)
   = calls (rounds reg loads gw max_rounds
       (conversation self @ [\<lparr>role = ''user'', body = Plain msg\<rparr>])
       (self\<lparr>conversation := conversation self @ [\<lparr>role = ''user'', body = Plain msg\<rparr>]\<rparr>))"
  "raised (chat reg loads gw self msg)
   = raised (rounds reg loads gw max_rounds
       (conversation self @ [\<lparr>role = ''user'', body = Plain msg\<rparr>])
       (self\<lparr>conversation := conversation self @ [\<lparr>role = ''user'', body = Plain msg\<rparr>]\<rparr>))"
  "agent (chat reg loads gw self msg)
   = agent (rounds reg loads gw max_rounds
       (conversation self @ [\<lparr>role = ''user'', body = Plain msg\<rparr>])
       (self\<lparr>conversation := conversation self @ [\<lparr>role = ''user'', body = Plain msg\<rparr>]\<rparr>))"
  "events (chat reg loads gw self msg)
   = events (rounds reg loads gw max_rounds
       (conversation self @ [\<lparr>role = ''user'', body = Plain msg\<rparr>])
       (self\<lparr>conversation := conversation self @ [\<lparr>role = ''user'', body = Plain msg\<rparr>]\<rparr>))
     @ (if raised (chat reg loads gw self msg) = None then [StreamEnd] else [])"
  by (simp_all add: chat_def Let_def split: option.splits)

lemma max_rounds_Suc: "max_rounds = Suc 9"
  by (simp add: max_rounds_def)

lemma new_round_fields [simp]:
  "has_tool_use new_round = False" "text_parts new_round = []" "tool_results new_round = []"
  by (simp_all add: new_round_def)

lemma rounds_always_tool:
  assumes "\<forall>m. \<exists>r bs. gw m = Inr r \<and> content r = Some bs \<and> list_all (completes reg loads) bs
             \<and> list_ex is_tool_use bs \<and> stop_reason r \<noteq> Some ''end_turn''"
  shows "length (calls (rounds reg loads gw n m self)) = n
         \<and> raised (rounds reg loads gw n m self) = None
         \<and> agent (rounds reg loads gw n m self) = self"
proof (induction n arbitrary: m)
  case 0
  then show ?case by simp
next
  case (Suc n)
  from assms obtain r bs where r: "gw m = Inr r" "content r = Some bs"
    "list_all (completes reg loads) bs" "list_ex is_tool_use bs"
    "stop_reason r \<noteq> Some ''end_turn''"
    by blast
  show ?case
  proof (cases rule: rounds_Suc_cases [of gw m reg loads n self])
    case (gateway_error e)
    with r show ?thesis by simp
  next
    case (block_error response e s)
    with r process_blocks_complete [OF r(3), of new_round]
    show ?thesis by simp
  next
    case (no_content response)
    with r show ?thesis by simp
  next
    case (break response bs' s)
    with r process_blocks_has_tool_use [OF break(3)] show ?thesis by simp
  next
    case (continue response bs' s)
    with Suc.IH show ?thesis by simp
  qed
qed

lemma process_blocks_ids:
  "process_blocks reg loads bs s = (None, s') \<Longrightarrow>
   map Some (map tool_use_id (tool_results s'))
   = map Some (map tool_use_id (tool_results s)) @ map b_id (filter is_tool_use bs)"
proof (induction bs arbitrary: s)
  case Nil
  then show ?case by simp
next
  case (Cons b bs)
  from Cons.prems obtain s1 where b: "process_block reg loads b s = (None, s1)"
    and r: "process_blocks reg loads bs s1 = (None, s')"
    by (rule process_blocks_Cons_None)
  have "map Some (map tool_use_id (tool_results s1))
        = map Some (map tool_use_id (tool_results s)) @ (if is_tool_use b then [b_id b] else [])"
    using b by (auto simp: process_block_def Let_def is_tool_use_def
        split: option.splits loads_outcome.splits if_splits)
  with Cons.IH [OF r] show ?case by simp
qed

lemma rounds_next_call:
  "Suc k < length (calls (rounds reg loads gw n m self)) \<Longrightarrow>
   \<exists>response blocks outcomes_sent.
      gw (calls (rounds reg loads gw n m self) ! k) = Inr response
    \<and> content response = Some blocks
    \<and> calls (rounds reg loads gw n m self) ! Suc k
        = calls (rounds reg loads gw n m self) ! k
          @ [\<lparr>role = ''assistant'', body = Blocks blocks\<rparr>,
             \<lparr>role = ''user'', body = ToolResults outcomes_sent\<rparr>]
    \<and> outcomes_sent = concat (map (outcomes reg) (filter is_tool_use blocks))
    \<and> map Some (map tool_use_id outcomes_sent) = map b_id (filter is_tool_use blocks)"
proof (induction n arbitrary: m k)
  case 0
  then show ?case by simp
next
  case (Suc n)
  show ?case
  proof (cases rule: rounds_Suc_cases [of gw m reg loads n self])
    case (continue response bs s)
    let ?m' = "m @ [\<lparr>role = ''assistant'', body = Blocks bs\<rparr>,
                    \<lparr>role = ''user'', body = ToolResults (tool_results s)\<rparr>]"
    have cs: "calls (rounds reg loads gw (Suc n) m self) = m # calls (rounds reg loads gw n ?m' self)"
      using continue(6) by simp
    show ?thesis
    proof (cases k)
      case 0
      with Suc.prems cs obtain n' where n': "n = Suc n'"
        by (cases n) auto
      have hd: "calls (rounds reg loads gw n ?m' self) ! 0 = ?m'"
        using rounds_calls_Suc [of reg loads gw n' ?m' self] n'
        by (metis nth_Cons_0)
      show ?thesis
        using 0 cs hd continue(1,2) process_blocks_results [OF continue(3)]
          process_blocks_ids [OF continue(3)]
        by simp
    next
      case (Suc k')
      with Suc.prems cs have "Suc k' < length (calls (rounds reg loads gw n ?m' self))"
        by simp
      from Suc.IH [OF this] Suc cs show ?thesis by simp
    qed
  qed (use Suc.prems in auto)
qed

lemma received_simps [simp]:
  "received gw [] = []"
  "received gw (m # sent)
   = (case gw m of Inl e \<Rightarrow> []
      | Inr response \<Rightarrow> (case content response of None \<Rightarrow> [] | Some blocks \<Rightarrow> blocks))
     @ received gw sent"
  by (simp_all add: received_def)

lemma rounds_ToolUse_events:
  "list_all (completes reg loads) (received gw (calls (rounds reg loads gw n m self))) \<Longrightarrow>
   filter is_ToolUse (events (rounds reg loads gw n m self))
   = concat (map (invocations reg)
       (filter is_tool_use (received gw (calls (rounds reg loads gw n m self)))))"
proof (induction n arbitrary: m)
  case 0
  then show ?case by simp
next
  case (Suc n)
  show ?case
  proof (cases rule: rounds_Suc_cases [of gw m reg loads n self])
    case (gateway_error e)
    then show ?thesis by simp
  next
    case (block_error response e s)
    with Suc.prems
    have "list_all (completes reg loads)
            (case content response of None \<Rightarrow> [] | Some bs \<Rightarrow> bs)"
      by (simp split: option.splits)
    from process_blocks_complete [OF this, of new_round] block_error(2)
    show ?thesis by simp
  next
    case (no_content response)
    then show ?thesis by simp
  next
    case (break response bs s)
    with process_blocks_ToolUse [OF break(3)] show ?thesis by simp
  next
    case (continue response bs s)
    with Suc.prems Suc.IH process_blocks_ToolUse [OF continue(3)] show ?thesis by simp
  qed
qed

lemma invocations_well_formed:
  "well_formed b \<Longrightarrow> is_tool_use b \<Longrightarrow>
   \<exists>tool_name tool_input. b_name b = Some tool_name \<and> b_input b = Some tool_input
     \<and> invocations reg b
       = [ToolUse tool_name tool_input '''',
          ToolUse tool_name tool_input (take 2000 (execute_tool reg tool_name tool_input))]"
  by (auto simp: well_formed_def is_tool_use_def invocations_def)

lemma filter_is_ToolUse_End:
  "filter is_ToolUse (xs @ (if c then [StreamEnd] else [])) = filter is_ToolUse xs"
  by simp

lemma process_blocks_texts:
  "process_blocks reg loads bs s = (None, s') \<Longrightarrow> text_parts s' = text_parts s @ texts bs"
proof (induction bs arbitrary: s)
  case Nil
  then show ?case by (simp add: texts_def)
next
  case (Cons b bs)
  from Cons.prems obtain s1 where b: "process_block reg loads b s = (None, s1)"
    and r: "process_blocks reg loads bs s1 = (None, s')"
    by (rule process_blocks_Cons_None)
  have "text_parts s1 = text_parts s @ texts [b]"
    using b by (auto simp: process_block_def Let_def is_text_def texts_def
        split: option.splits loads_outcome.splits if_splits)
  moreover have "texts (b # bs) = texts [b] @ texts bs"
    by (simp add: texts_def)
  ultimately show ?case using Cons.IH [OF r] by simp
qed

lemma rounds_conversation:
  "agent (rounds reg loads gw (Suc n) m self)
   = (case gw (last (calls (rounds reg loads gw (Suc n) m self))) of
        Inl e \<Rightarrow> self
      | Inr r \<Rightarrow>
          if raised (rounds reg loads gw (Suc n) m self) = None \<and> ends_turn r
          then self\<lparr>conversation := conversation self
                  @ [\<lparr>role = ''assistant'', body = Plain (reply r)\<rparr>]\<rparr>
          else self)"
  supply rounds.simps(2) [simp del]
proof (induction n arbitrary: m)
  case 0
  show ?case
  proof (cases rule: rounds_Suc_cases [of gw m reg loads 0 self])
    case (break response bs s)
    with process_blocks_texts [OF break(3)] process_blocks_has_tool_use [OF break(3)]
    show ?thesis by (auto simp: ends_turn_def reply_def)
  next
    case (continue response bs s)
    with process_blocks_has_tool_use [OF continue(3)]
    show ?thesis by (auto simp: ends_turn_def)
  qed auto
next
  case (Suc n)
  show ?case
  proof (cases rule: rounds_Suc_cases [of gw m reg loads "Suc n" self])
    case (break response bs s)
    with process_blocks_texts [OF break(3)] process_blocks_has_tool_use [OF break(3)]
    show ?thesis by (auto simp: ends_turn_def reply_def)
  next
    case (continue response bs s)
    let ?m' = "m @ [\<lparr>role = ''assistant'', body = Blocks bs\<rparr>,
                    \<lparr>role = ''user'', body = ToolResults (tool_results s)\<rparr>]"
    have ne: "calls (rounds reg loads gw (Suc n) ?m' self) \<noteq> []"
      using rounds_calls_Suc [of reg loads gw n ?m' self] by (metis list.distinct(1))
    have a: "agent (rounds reg loads gw (Suc (Suc n)) m self)
             = agent (rounds reg loads gw (Suc n) ?m' self)"
      and r: "raised (rounds reg loads gw (Suc (Suc n)) m self)
             = raised (rounds reg loads gw (Suc n) ?m' self)"
      and l: "last (calls (rounds reg loads gw (Suc (Suc n)) m self))
             = last (calls (rounds reg loads gw (Suc n) ?m' self))"
      using continue(6) ne by simp_all
    show ?thesis unfolding a r l by (rule Suc.IH)
  qed auto
qed

lemma rounds_conversation_list:
  "conversation (agent (rounds reg loads gw (Suc n) (conversation self @ [u])
      (self\<lparr>conversation := conversation self @ [u]\<rparr>)))
   = conversation self @ [u]
     @ (case gw (last (calls (rounds reg loads gw (Suc n) (conversation self @ [u])
                  (self\<lparr>conversation := conversation self @ [u]\<rparr>)))) of
          Inl e \<Rightarrow> []
        | Inr r \<Rightarrow>
            if raised (rounds reg loads gw (Suc n) (conversation self @ [u])
                  (self\<lparr>conversation := conversation self @ [u]\<rparr>)) = None \<and> ends_turn r
            then [\<lparr>role = ''assistant'', body = Plain (reply r)\<rparr>] else [])"
proof -
  let ?R = "rounds reg loads gw (Suc n) (conversation self @ [u])
      (self\<lparr>conversation := conversation self @ [u]\<rparr>)"
  note rc = rounds_conversation [of reg loads gw n "conversation self @ [u]"
      "self\<lparr>conversation := conversation self @ [u]\<rparr>"]
  show ?thesis
  proof (cases "gw (last (calls ?R))")
    case (Inl e)
    with rc have "agent ?R = self\<lparr>conversation := conversation self @ [u]\<rparr>" by simp
    with Inl show ?thesis by simp
  next
    case (Inr r)
    show ?thesis
    proof (cases "raised ?R = None \<and> ends_turn r")
      case True
      with rc Inr have "agent ?R = self\<lparr>conversation := conversation self @ [u],
        conversation := conversation (self\<lparr>conversation := conversation self @ [u]\<rparr>)
           @ [\<lparr>role = ''assistant'', body = Plain (reply r)\<rparr>]\<rparr>"
        by simp
      with Inr True show ?thesis by simp
    next
      case False
      with rc Inr have "agent ?R = self\<lparr>conversation := conversation self @ [u]\<rparr>" by simp
      with Inr False show ?thesis by simp
    qed
  qed
qed

lemma reset_message_nonempty: "lower (strip user_msg) = ''/reset'' \<Longrightarrow> user_msg \<noteq> []"
  by (auto simp: lower_def strip_def)

lemma tool_gateway_streams_text:
  "TextDelta ''Still looking.''
     \<in> set (events (rounds demo_tools no_json tool_gateway (Suc n) m self))"
  by (simp add: tool_gateway_def tool_response_def process_block_def Let_def new_round_def
      no_json_def)

lemma count_list_send_event:
  "count_list (map send_event evs) DoneFrame = count_list evs StreamEnd"
proof (induction evs)
  case Nil
  then show ?case by simp
next
  case (Cons ev evs)
  then show ?case by (cases ev) simp_all
qed

section \<open>Properties of the dispatcher\<close>

text \<open>
  C3. For every tool name present in the registry and every arguments value: when the
  registered handler raises an exception with message \<open>msg\<close>, the dispatcher returns the
  text \<open>Error executing <name>: <msg>\<close>, which begins with \<open>Error executing\<close>. The
  dispatcher is a total function to strings: the exception is turned into its result
  and is not propagated. A well-formed request for such a tool is processed without an
  exception: both tool events are emitted and the outcome, carrying that text, is
  recorded for the next request to the model. (The text is no JSON, so \<open>json.loads\<close>
  raises the \<open>JSONDecodeError\<close> that the loop catches; for the parameter \<open>loads\<close> this is
  the condition \<open>parses\<close>.)
\<close>

theorem execute_tool_handler_raises:
  fixes TOOL_REGISTRY :: "'a registry" and loads :: "'v json_loads"
  assumes "TOOL_REGISTRY name = Some fn" and "fn arguments = Raises msg"
  shows "execute_tool TOOL_REGISTRY name arguments = ''Error executing '' @ name @ '': '' @ msg
    \<and> take 15 (execute_tool TOOL_REGISTRY name arguments) = ''Error executing''
    \<and> (parses loads (''Error executing '' @ name @ '': '' @ msg) \<longrightarrow>
        process_block TOOL_REGISTRY loads
         \<lparr>b_type = Some ''tool_use'', b_text = None, b_id = Some i, b_name = Some name,
          b_input = Some arguments\<rparr> s
       = (None, s\<lparr>has_tool_use := True,
            emitted := emitted s @ [ToolUse name arguments '''']
              @ artifacts loads name (''Error executing '' @ name @ '': '' @ msg)
              @ [ToolUse name arguments (take 2000 (''Error executing '' @ name @ '': '' @ msg))],
            tool_results := tool_results s
              @ [\<lparr>tool_use_id = i,
                   result_content = take 4000 (''Error executing '' @ name @ '': '' @ msg)\<rparr>]\<rparr>))"
  using assms
  by (auto simp: execute_tool_def process_block_def Let_def parses_def
      split: loads_outcome.splits)

theorem execute_tool_handler_raises_witness:
  "demo_tools ''boom'' = Some boom \<and> boom () = Raises ''disk full''
   \<and> parses no_json (''Error executing '' @ ''boom'' @ '': '' @ ''disk full'')
   \<and> execute_tool demo_tools ''boom'' () = ''Error executing boom: disk full''
   \<and> take 15 (execute_tool demo_tools ''boom'' ()) = ''Error executing''
   \<and> fst (process_block demo_tools no_json
         \<lparr>b_type = Some ''tool_use'', b_text = None, b_id = Some ''toolu_3'',
          b_name = Some ''boom'', b_input = Some ()\<rparr> new_round) = None"
proof -
  have r: "demo_tools ''boom'' = Some boom" by (simp add: demo_tools_def)
  have h: "boom () = Raises ''disk full''" by (simp add: boom_def)
  have p: "parses no_json (''Error executing '' @ ''boom'' @ '': '' @ ''disk full'')"
    by (simp add: parses_def no_json_def)
  show ?thesis
    using r h p
      execute_tool_handler_raises [of demo_tools "''boom''" boom "()" "''disk full''"
        no_json "''toolu_3''" new_round]
    by simp
qed

text \<open>
  C4, as the claim states it, fails: the text returned for an unregistered name begins
  with \<open>Error: \<close>, not with \<open>Unknown tool\<close>.
\<close>

theorem execute_tool_unknown_counterexample:
  "take 12 (execute_tool no_tools ''nope'' ()) \<noteq> ''Unknown tool''
   \<and> execute_tool no_tools ''nope'' () = ''Error: Unknown tool '' @ quoted ''nope''"
  by (simp add: execute_tool_def no_tools_def quoted_def)

text \<open>
  C4, amended. For every name that is not in the registry and every arguments value, the
  dispatcher returns the text \<open>Error: Unknown tool '<name>'\<close>: the prefix \<open>Error: \<close>
  followed by \<open>Unknown tool '<name>'\<close>. It does not raise, and a well-formed tool request
  for such a name is processed without an exception: both tool events are emitted and
  its outcome, carrying that text, is recorded for the next request to the model. (The
  text is no JSON, so \<open>json.loads\<close> raises the \<open>JSONDecodeError\<close> that the loop catches;
  for the parameter \<open>loads\<close> this is the condition \<open>parses\<close>.)
\<close>

theorem execute_tool_unknown:
  fixes TOOL_REGISTRY :: "'a registry" and loads :: "'v json_loads"
  assumes "TOOL_REGISTRY name = None"
  shows "execute_tool TOOL_REGISTRY name arguments = ''Error: Unknown tool '' @ quoted name
         \<and> drop 7 (execute_tool TOOL_REGISTRY name arguments) = ''Unknown tool '' @ quoted name
         \<and> (parses loads (''Error: Unknown tool '' @ quoted name) \<longrightarrow>
            process_block TOOL_REGISTRY loads
              \<lparr>b_type = Some ''tool_use'', b_text = None, b_id = Some i, b_name = Some name,
               b_input = Some arguments\<rparr> s
            = (None, s\<lparr>has_tool_use := True,
                 emitted := emitted s @ [ToolUse name arguments '''']
                   @ artifacts loads name (''Error: Unknown tool '' @ quoted name)
                   @ [ToolUse name arguments (take 2000 (''Error: Unknown tool '' @ quoted name))],
                 tool_results := tool_results s
                   @ [\<lparr>tool_use_id = i,
                        result_content = take 4000 (''Error: Unknown tool '' @ quoted name)\<rparr>]\<rparr>))"
  using assms
  by (auto simp: execute_tool_def process_block_def Let_def parses_def
      split: loads_outcome.splits)

theorem execute_tool_unknown_witness:
  "no_tools ''nope'' = None
   \<and> parses no_json (''Error: Unknown tool '' @ quoted ''nope'')
   \<and> execute_tool no_tools ''nope'' () = ''Error: Unknown tool '' @ quoted ''nope''
   \<and> drop 7 (execute_tool no_tools ''nope'' ()) = ''Unknown tool '' @ quoted ''nope''
   \<and> fst (process_block no_tools no_json
         \<lparr>b_type = Some ''tool_use'', b_text = None, b_id = Some ''t1'',
          b_name = Some ''nope'', b_input = Some ()\<rparr> new_round) = None"
proof -
  have h: "no_tools ''nope'' = None" by (simp add: no_tools_def)
  have p: "parses no_json (''Error: Unknown tool '' @ quoted ''nope'')"
    by (simp add: parses_def no_json_def)
  show ?thesis
    using h p execute_tool_unknown [of no_tools "''nope''" "()" no_json "''t1''" new_round]
    by simp
qed

section \<open>Properties of the chat loop\<close>

text \<open>
  C1, as the claim states it, fails: when the completion service answers the first
  request with an error, \<open>_call_claude\<close> raises, the exception leaves \<open>chat\<close> and the
  stream holds no \<open>StreamEnd\<close> event at all; the websocket handler sends one \<open>error\<close>
  frame and no \<open>done\<close> frame.
\<close>

theorem chat_gateway_error_counterexample:
  "count_list (events (chat no_tools no_json failing_gateway fresh_agent ''hello'')) StreamEnd = 0
   \<and> raised (chat no_tools no_json failing_gateway fresh_agent ''hello'')
       = Some (GatewayError ''529 overloaded'')
   \<and> frames (chat_ws_step no_tools no_json failing_gateway fresh_agent ''hello'')
       = [ErrorFrame ''529 overloaded'']"
  by code_simp

text \<open>
  C1, amended. For every call of \<open>chat\<close>: when the call returns without raising (the model
  ended the turn, or the round budget ran out), the stream holds exactly one \<open>StreamEnd\<close>
  event and it is the last event; when the call raises, the stream holds no \<open>StreamEnd\<close>
  event; and an error of the last Model Gateway call is raised by \<open>chat\<close>. For the
  websocket handler, on a message that is neither empty nor the reset sentinel: it
  sends one \<open>done\<close> frame when \<open>chat\<close> returns and none when \<open>chat\<close> raises, and then its
  last frame is the \<open>error\<close> frame with the text of the exception.
\<close>

theorem chat_StreamEnd_iff_returns:
  "count_list (events (chat reg loads gw self msg)) StreamEnd
     = (if raised (chat reg loads gw self msg) = None then 1 else 0)
   \<and> (raised (chat reg loads gw self msg) = None
        \<longrightarrow> last (events (chat reg loads gw self msg)) = StreamEnd)
   \<and> (\<forall>e. gw (last (calls (chat reg loads gw self msg))) = Inl e
        \<longrightarrow> raised (chat reg loads gw self msg) = Some e)
   \<and> (msg \<noteq> [] \<and> lower (strip msg) \<noteq> ''/reset''
        \<longrightarrow> count_list (frames (chat_ws_step reg loads gw self msg)) DoneFrame
              = (if raised (chat reg loads gw self msg) = None then 1 else 0)
          \<and> (\<forall>e. raised (chat reg loads gw self msg) = Some e
                \<longrightarrow> last (frames (chat_ws_step reg loads gw self msg))
                    = ErrorFrame (str_error e)))"
proof (intro conjI allI impI)
  show c: "count_list (events (chat reg loads gw self msg)) StreamEnd
     = (if raised (chat reg loads gw self msg) = None then 1 else 0)"
    by (simp add: chat_fields(4) rounds_count_End)
  show "last (events (chat reg loads gw self msg)) = StreamEnd"
    if "raised (chat reg loads gw self msg) = None"
    using that by (simp add: chat_fields(4))
  show "raised (chat reg loads gw self msg) = Some e"
    if "gw (last (calls (chat reg loads gw self msg))) = Inl e" for e
    using that rounds_gateway_error [of gw reg loads 9]
    by (simp add: chat_fields(1,2) max_rounds_Suc)
  show "count_list (frames (chat_ws_step reg loads gw self msg)) DoneFrame
              = (if raised (chat reg loads gw self msg) = None then 1 else 0)"
    if "msg \<noteq> [] \<and> lower (strip msg) \<noteq> ''/reset''"
    using that c
    by (auto simp: chat_ws_step_def Let_def count_list_send_event)
  show "last (frames (chat_ws_step reg loads gw self msg)) = ErrorFrame (str_error e)"
    if "msg \<noteq> [] \<and> lower (strip msg) \<noteq> ''/reset''"
      and "raised (chat reg loads gw self msg) = Some e" for e
    using that by (simp add: chat_ws_step_def Let_def)
qed

theorem chat_StreamEnd_iff_returns_witness:
  "raised (chat demo_tools no_json hello_gateway fresh_agent ''hello'') = None
   \<and> count_list (events (chat demo_tools no_json hello_gateway fresh_agent ''hello'')) StreamEnd = 1
   \<and> last (events (chat demo_tools no_json hello_gateway fresh_agent ''hello'')) = StreamEnd
   \<and> failing_gateway (last (calls (chat demo_tools no_json failing_gateway fresh_agent ''hello'')))
       = Inl (GatewayError ''529 overloaded'')
   \<and> raised (chat demo_tools no_json failing_gateway fresh_agent ''hello'')
       = Some (GatewayError ''529 overloaded'')
   \<and> ''hello'' \<noteq> [] \<and> lower (strip ''hello'') \<noteq> ''/reset''
   \<and> count_list (frames (chat_ws_step demo_tools no_json hello_gateway fresh_agent ''hello''))
         DoneFrame = 1
   \<and> count_list (frames (chat_ws_step demo_tools no_json failing_gateway fresh_agent ''hello''))
         DoneFrame = 0
   \<and> last (frames (chat_ws_step demo_tools no_json failing_gateway fresh_agent ''hello''))
       = ErrorFrame ''529 overloaded''"
proof -
  have h: "raised (chat demo_tools no_json hello_gateway fresh_agent ''hello'') = None"
    by code_simp
  have g: "failing_gateway (last (calls (chat demo_tools no_json failing_gateway fresh_agent ''hello'')))
       = Inl (GatewayError ''529 overloaded'')"
    by (simp add: failing_gateway_def)
  have m: "''hello'' \<noteq> [] \<and> lower (strip ''hello'') \<noteq> ''/reset''"
    by code_simp
  show ?thesis
    using h g m
      chat_StreamEnd_iff_returns [of demo_tools no_json hello_gateway fresh_agent "''hello''"]
      chat_StreamEnd_iff_returns [of demo_tools no_json failing_gateway fresh_agent "''hello''"]
    by simp
qed

text \<open>
  C5. When every response of the model is well formed, requests at least one tool call
  and has a stop reason other than \<open>end_turn\<close>, and \<open>json.loads\<close> raises nothing but the
  two caught exceptions on the results of the requested tools, \<open>chat\<close> makes exactly
  \<open>max_rounds\<close> = 10 Model Gateway calls, so no eleventh one, returns without raising and
  ends its stream with the one \<open>StreamEnd\<close> event.
\<close>

theorem chat_round_budget:
  assumes "\<forall>m. \<exists>r bs. gw m = Inr r \<and> content r = Some bs \<and> list_all (completes reg loads) bs
             \<and> list_ex is_tool_use bs \<and> stop_reason r \<noteq> Some ''end_turn''"
  shows "length (calls (chat reg loads gw self msg)) = max_rounds
         \<and> max_rounds = 10
         \<and> raised (chat reg loads gw self msg) = None
         \<and> count_list (events (chat reg loads gw self msg)) StreamEnd = 1
         \<and> last (events (chat reg loads gw self msg)) = StreamEnd"
  using rounds_always_tool [OF assms, of max_rounds]
  by (simp add: chat_fields rounds_count_End max_rounds_def)

theorem chat_round_budget_witness:
  "(\<forall>m. \<exists>r bs. tool_gateway m = Inr r \<and> content r = Some bs
             \<and> list_all (completes demo_tools no_json) bs
             \<and> list_ex is_tool_use bs \<and> stop_reason r \<noteq> Some ''end_turn'')
   \<and> length (calls (chat demo_tools no_json tool_gateway fresh_agent ''find it'')) = 10
   \<and> raised (chat demo_tools no_json tool_gateway fresh_agent ''find it'') = None
   \<and> count_list (events (chat demo_tools no_json tool_gateway fresh_agent ''find it'')) StreamEnd = 1"
proof -
  have h: "\<forall>m. \<exists>r bs. tool_gateway m = Inr r \<and> content r = Some bs
             \<and> list_all (completes demo_tools no_json) bs
             \<and> list_ex is_tool_use bs \<and> stop_reason r \<noteq> Some ''end_turn''"
    by (simp add: tool_gateway_def tool_response_def completes_def well_formed_def
        is_tool_use_def parses_def no_json_def)
  show ?thesis
    using h chat_round_budget [OF h, of fresh_agent "''find it''"]
    by simp
qed

text \<open>
  C2. Whenever \<open>chat\<close> makes a further Model Gateway call after a response, the message
  list of that call is the previous one extended by the assistant message with the raw
  blocks of the response and one user message with the tool outcomes. These outcomes
  are, in order, one per tool request of the response, each carrying the id of its
  request, whatever the order of text and tool blocks is; a response for which an
  outcome is missing is never followed by a call.
\<close>

theorem chat_tool_requests_paired:
  assumes "Suc k < length (calls (chat reg loads gw self msg))"
  shows "\<exists>response blocks outcomes_sent.
      gw (calls (chat reg loads gw self msg) ! k) = Inr response
    \<and> content response = Some blocks
    \<and> calls (chat reg loads gw self msg) ! Suc k
        = calls (chat reg loads gw self msg) ! k
          @ [\<lparr>role = ''assistant'', body = Blocks blocks\<rparr>,
             \<lparr>role = ''user'', body = ToolResults outcomes_sent\<rparr>]
    \<and> outcomes_sent = concat (map (outcomes reg) (filter is_tool_use blocks))
    \<and> map Some (map tool_use_id outcomes_sent) = map b_id (filter is_tool_use blocks)"
  using assms unfolding chat_fields(1) by (rule rounds_next_call)

theorem chat_tool_requests_paired_witness:
  "Suc 0 < length (calls (chat demo_tools no_json two_step_gateway fresh_agent ''find it''))
   \<and> (\<exists>response blocks outcomes_sent.
      two_step_gateway (calls (chat demo_tools no_json two_step_gateway fresh_agent ''find it'') ! 0)
        = Inr response
    \<and> content response = Some blocks
    \<and> calls (chat demo_tools no_json two_step_gateway fresh_agent ''find it'') ! Suc 0
        = calls (chat demo_tools no_json two_step_gateway fresh_agent ''find it'') ! 0
          @ [\<lparr>role = ''assistant'', body = Blocks blocks\<rparr>,
             \<lparr>role = ''user'', body = ToolResults outcomes_sent\<rparr>]
    \<and> outcomes_sent = concat (map (outcomes demo_tools) (filter is_tool_use blocks))
    \<and> map Some (map tool_use_id outcomes_sent) = map b_id (filter is_tool_use blocks))"
proof -
  have h: "Suc 0 < length (calls (chat demo_tools no_json two_step_gateway fresh_agent ''find it''))"
    by code_simp
  show ?thesis
    using h chat_tool_requests_paired [OF h] by simp
qed

text \<open>
  C6. When the blocks received during a call of \<open>chat\<close> are well formed and \<open>json.loads\<close>
  raises nothing but the two caught exceptions on the results of the requested tools,
  the tool events of the stream are, in the order of the tool requests received, exactly two per
  request: the first with the name and arguments of the request and the empty result,
  the second with the same name and arguments and the result of the dispatcher cut to
  2000 characters.
\<close>

theorem chat_two_events_per_tool_request:
  fixes reg :: "'a registry" and loads :: "'v json_loads"
  assumes "list_all (completes reg loads) (received gw (calls (chat reg loads gw self msg)))"
  shows "filter is_ToolUse (events (chat reg loads gw self msg))
         = concat (map (invocations reg)
             (filter is_tool_use (received gw (calls (chat reg loads gw self msg)))))
       \<and> (\<forall>b \<in> set (filter is_tool_use (received gw (calls (chat reg loads gw self msg)))).
            \<exists>tool_name tool_input. b_name b = Some tool_name \<and> b_input b = Some tool_input
              \<and> invocations reg b
                = [ToolUse tool_name tool_input '''' :: ('a, 'v) StreamEvent,
                   ToolUse tool_name tool_input
                     (take 2000 (execute_tool reg tool_name tool_input))])"
proof
  show "filter is_ToolUse (events (chat reg loads gw self msg))
         = concat (map (invocations reg)
             (filter is_tool_use (received gw (calls (chat reg loads gw self msg)))))"
    using assms unfolding chat_fields(1) chat_fields(4) filter_is_ToolUse_End
    by (rule rounds_ToolUse_events)
  show "\<forall>b \<in> set (filter is_tool_use (received gw (calls (chat reg loads gw self msg)))).
            \<exists>tool_name tool_input. b_name b = Some tool_name \<and> b_input b = Some tool_input
              \<and> invocations reg b
                = [ToolUse tool_name tool_input '''' :: ('a, 'v) StreamEvent,
                   ToolUse tool_name tool_input
                     (take 2000 (execute_tool reg tool_name tool_input))]"
  proof
    fix b
    assume b: "b \<in> set (filter is_tool_use (received gw (calls (chat reg loads gw self msg))))"
    with assms have "well_formed b" and "is_tool_use b"
      by (simp_all add: list_all_iff completes_def)
    then show "\<exists>tool_name tool_input. b_name b = Some tool_name \<and> b_input b = Some tool_input
              \<and> invocations reg b
                = [ToolUse tool_name tool_input '''' :: ('a, 'v) StreamEvent,
                   ToolUse tool_name tool_input
                     (take 2000 (execute_tool reg tool_name tool_input))]"
      by (rule invocations_well_formed)
  qed
qed

theorem chat_two_events_per_tool_request_witness:
  "list_all (completes demo_tools no_json)
     (received two_step_gateway
        (calls (chat demo_tools no_json two_step_gateway fresh_agent ''find it'')))
   \<and> filter is_ToolUse (events (chat demo_tools no_json two_step_gateway fresh_agent ''find it''))
       = concat (map (invocations demo_tools)
           (filter is_tool_use (received two_step_gateway
              (calls (chat demo_tools no_json two_step_gateway fresh_agent ''find it'')))))
   \<and> events (chat demo_tools no_json two_step_gateway fresh_agent ''find it'')
       = [TextDelta ''Let me look.'', ToolUse ''lookup'' () '''', ToolUse ''lookup'' () ''42'',
          TextDelta ''It is 42.'', StreamEnd]"
proof -
  have h: "list_all (completes demo_tools no_json)
     (received two_step_gateway
        (calls (chat demo_tools no_json two_step_gateway fresh_agent ''find it'')))"
    by code_simp
  have e: "events (chat demo_tools no_json two_step_gateway fresh_agent ''find it'')
       = [TextDelta ''Let me look.'', ToolUse ''lookup'' () '''', ToolUse ''lookup'' () ''42'',
          TextDelta ''It is 42.'', StreamEnd]"
    by code_simp
  note t = chat_two_events_per_tool_request [OF h, THEN conjunct1]
  from h t e show ?thesis by blast
qed

text \<open>
  C10. After a call of \<open>chat\<close> the stored conversation is the one before, the user
  message, and at most one assistant entry. The assistant entry is appended exactly
  when the call returns without raising and the last response ended the turn (no tool
  request, or stop reason \<open>end_turn\<close>); its content is the plain string joining the text
  parts of that last response with newlines. No block list and no tool outcome is
  stored. When the last response did not end the turn (the round budget ran out) no
  assistant entry is appended.
\<close>

theorem chat_conversation:
  "conversation (agent (chat reg loads gw self msg))
   = conversation self @ [\<lparr>role = ''user'', body = Plain msg\<rparr>]
     @ (case gw (last (calls (chat reg loads gw self msg))) of
          Inl e \<Rightarrow> []
        | Inr r \<Rightarrow>
            if raised (chat reg loads gw self msg) = None \<and> ends_turn r
            then [\<lparr>role = ''assistant'', body = Plain (reply r)\<rparr>] else [])
   \<and> (\<forall>r. gw (last (calls (chat reg loads gw self msg))) = Inr r \<and> \<not> ends_turn r
        \<longrightarrow> conversation (agent (chat reg loads gw self msg))
            = conversation self @ [\<lparr>role = ''user'', body = Plain msg\<rparr>])"
proof -
  have main: "conversation (agent (chat reg loads gw self msg))
   = conversation self @ [\<lparr>role = ''user'', body = Plain msg\<rparr>]
     @ (case gw (last (calls (chat reg loads gw self msg))) of
          Inl e \<Rightarrow> []
        | Inr r \<Rightarrow>
            if raised (chat reg loads gw self msg) = None \<and> ends_turn r
            then [\<lparr>role = ''assistant'', body = Plain (reply r)\<rparr>] else [])"
    unfolding chat_fields(1,2,3) max_rounds_Suc
    by (rule rounds_conversation_list)
  have "conversation (agent (chat reg loads gw self msg))
            = conversation self @ [\<lparr>role = ''user'', body = Plain msg\<rparr>]"
    if "gw (last (calls (chat reg loads gw self msg))) = Inr r \<and> \<not> ends_turn r" for r
    using that by (simp add: main)
  with main show ?thesis by blast
qed

theorem chat_conversation_witness:
  "conversation (agent (chat demo_tools no_json hello_gateway fresh_agent ''hello''))
   = [\<lparr>role = ''user'', body = Plain ''hello''\<rparr>,
      \<lparr>role = ''assistant'', body = Plain ''hello back''\<rparr>]
   \<and> tool_gateway (last (calls (chat demo_tools no_json tool_gateway fresh_agent ''find it'')))
       = Inr tool_response
   \<and> \<not> ends_turn tool_response
   \<and> conversation (agent (chat demo_tools no_json tool_gateway fresh_agent ''find it''))
       = [\<lparr>role = ''user'', body = Plain ''find it''\<rparr>]
   \<and> TextDelta ''Still looking.''
       \<in> set (events (chat demo_tools no_json tool_gateway fresh_agent ''find it''))"
proof -
  have "TextDelta ''Still looking.''
    \<in> set (events (rounds demo_tools no_json tool_gateway (Suc 9)
        (conversation fresh_agent @ [\<lparr>role = ''user'', body = Plain ''find it''\<rparr>])
        (fresh_agent\<lparr>conversation := conversation fresh_agent
           @ [\<lparr>role = ''user'', body = Plain ''find it''\<rparr>]\<rparr>)))"
    by (rule tool_gateway_streams_text)
  then have t: "TextDelta ''Still looking.''
       \<in> set (events (chat demo_tools no_json tool_gateway fresh_agent ''find it''))"
    unfolding chat_fields(4) max_rounds_Suc by (simp del: rounds.simps)
  have g: "tool_gateway (last (calls (chat demo_tools no_json tool_gateway fresh_agent ''find it'')))
       = Inr tool_response"
    by (simp add: tool_gateway_def)
  have n: "\<not> ends_turn tool_response"
    by (simp add: ends_turn_def tool_response_def is_tool_use_def)
  have c: "conversation (agent (chat demo_tools no_json hello_gateway fresh_agent ''hello''))
   = [\<lparr>role = ''user'', body = Plain ''hello''\<rparr>,
      \<lparr>role = ''assistant'', body = Plain ''hello back''\<rparr>]"
    by code_simp
  have f: "conversation fresh_agent = []"
    by (simp add: fresh_agent_def)
  show ?thesis
    using g n c f t
      chat_conversation [of demo_tools no_json tool_gateway fresh_agent "''find it''"]
    by simp
qed

text \<open>
  C7. For a tool request, with \<open>raw\<close> the result of the dispatcher. Where \<open>json.loads\<close>
  returns on \<open>raw\<close> or raises a caught exception, the result streamed in the second tool
  event is \<open>raw[:2000]\<close> and the content of the outcome recorded for the model is
  \<open>raw[:4000]\<close>. Where \<open>json.loads\<close> raises another exception, only the first tool event
  (with the empty result) is streamed and nothing is recorded for the model. The
  streamed text is at most 2000 characters long, the recorded text at most 4000; both
  are functions of \<open>raw\<close> and their cap alone, and the caps are different values: a
  result longer than 2000 characters is streamed shorter than it is given to the model.
\<close>

theorem process_block_truncation:
  assumes "b_type block = Some ''tool_use''" and "b_name block = Some tool_name"
    and "b_input block = Some tool_input" and "b_id block = Some i"
  shows "(parses loads (execute_tool TOOL_REGISTRY tool_name tool_input) \<longrightarrow>
        fst (process_block TOOL_REGISTRY loads block s) = None
      \<and> last (emitted (snd (process_block TOOL_REGISTRY loads block s)))
          = ToolUse tool_name tool_input
              (take 2000 (execute_tool TOOL_REGISTRY tool_name tool_input))
      \<and> tool_results (snd (process_block TOOL_REGISTRY loads block s))
          = tool_results s
            @ [\<lparr>tool_use_id = i,
                 result_content
                   = take 4000 (execute_tool TOOL_REGISTRY tool_name tool_input)\<rparr>])
    \<and> (\<not> parses loads (execute_tool TOOL_REGISTRY tool_name tool_input) \<longrightarrow>
        emitted (snd (process_block TOOL_REGISTRY loads block s))
          = emitted s @ [ToolUse tool_name tool_input '''']
      \<and> tool_results (snd (process_block TOOL_REGISTRY loads block s)) = tool_results s)
    \<and> length (take 2000 (execute_tool TOOL_REGISTRY tool_name tool_input)) \<le> 2000
    \<and> length (take 4000 (execute_tool TOOL_REGISTRY tool_name tool_input)) \<le> 4000
    \<and> (2000 < length (execute_tool TOOL_REGISTRY tool_name tool_input)
         \<longrightarrow> length (take 2000 (execute_tool TOOL_REGISTRY tool_name tool_input))
              < length (take 4000 (execute_tool TOOL_REGISTRY tool_name tool_input)))"
  using assms
  by (auto simp: process_block_def Let_def parses_def split: loads_outcome.splits)

theorem process_block_truncation_witness:
  "b_type dump_block = Some ''tool_use'' \<and> b_name dump_block = Some ''dump''
   \<and> b_input dump_block = Some () \<and> b_id dump_block = Some ''toolu_9''
   \<and> execute_tool long_tools ''dump'' () = long_result
   \<and> parses no_json (execute_tool long_tools ''dump'' ())
   \<and> 2000 < length (execute_tool long_tools ''dump'' ())
   \<and> last (emitted (snd (process_block long_tools no_json dump_block new_round)))
        = ToolUse ''dump'' () (take 2000 long_result)
   \<and> tool_results (snd (process_block long_tools no_json dump_block new_round))
        = [\<lparr>tool_use_id = ''toolu_9'', result_content = take 4000 long_result\<rparr>]
   \<and> length (take 2000 long_result) < length (take 4000 long_result)
   \<and> b_type digits_block = Some ''tool_use'' \<and> b_name digits_block = Some ''digits''
   \<and> b_input digits_block = Some () \<and> b_id digits_block = Some ''toolu_7''
   \<and> \<not> parses demo_loads (execute_tool digits_tools ''digits'' ())
   \<and> emitted (snd (process_block digits_tools demo_loads digits_block new_round))
        = [ToolUse ''digits'' () '''']
   \<and> tool_results (snd (process_block digits_tools demo_loads digits_block new_round)) = []"
proof -
  have a: "b_type dump_block = Some ''tool_use''" "b_name dump_block = Some ''dump''"
    "b_input dump_block = Some ()" "b_id dump_block = Some ''toolu_9''"
    by (simp_all add: dump_block_def)
  have r: "execute_tool long_tools ''dump'' () = long_result"
    by (simp add: execute_tool_def long_tools_def long_tool_def)
  have p: "parses no_json (execute_tool long_tools ''dump'' ())"
    by (simp add: parses_def no_json_def)
  have l: "2000 < length (execute_tool long_tools ''dump'' ())"
    by (simp add: r long_result_def)
  have b: "b_type digits_block = Some ''tool_use''" "b_name digits_block = Some ''digits''"
    "b_input digits_block = Some ()" "b_id digits_block = Some ''toolu_7''"
    by (simp_all add: digits_block_def)
  have n: "\<not> parses demo_loads (execute_tool digits_tools ''digits'' ())"
    by code_simp
  show ?thesis
    using a r p l b n
      process_block_truncation [OF a, of no_json long_tools new_round]
      process_block_truncation [OF b, of demo_loads digits_tools new_round]
    by simp
qed

text \<open>
  What holds of the artifacts. For a tool request whose result \<open>raw\<close> is a string on which
  \<open>json.loads\<close> returns or raises a caught exception, the events emitted are the first
  tool event, the artifact events, and the second tool event with the text. When \<open>raw\<close>
  parses as a JSON object, an image event with the value of \<open>image_base64\<close> is among
  them exactly when the object has that key, and an audio event with the value of
  \<open>audio_base64\<close> exactly when it has that key, the image first. When \<open>raw\<close> is no JSON, or
  parses to something that is not an object, or the object has neither key, there is no
  artifact event, the block is processed without an exception and its outcome is
  recorded.
\<close>

lemma process_block_parsed_result:
  fixes TOOL_REGISTRY :: "'a registry" and loads :: "'v json_loads"
  assumes "b_type block = Some ''tool_use''" and "b_name block = Some tool_name"
    and "b_input block = Some tool_input" and "b_id block = Some i"
    and "parses loads (execute_tool TOOL_REGISTRY tool_name tool_input)"
  shows "process_block TOOL_REGISTRY loads block s
     = (None, s\<lparr>has_tool_use := True,
          emitted := emitted s @ [ToolUse tool_name tool_input '''']
            @ artifacts loads tool_name (execute_tool TOOL_REGISTRY tool_name tool_input)
            @ [ToolUse tool_name tool_input
                 (take 2000 (execute_tool TOOL_REGISTRY tool_name tool_input))],
          tool_results := tool_results s
            @ [\<lparr>tool_use_id = i,
                 result_content
                   = take 4000 (execute_tool TOOL_REGISTRY tool_name tool_input)\<rparr>]\<rparr>)
    \<and> (\<forall>result_data.
          loads (execute_tool TOOL_REGISTRY tool_name tool_input) = Loaded (JsonDict result_data)
          \<longrightarrow> artifacts loads tool_name (execute_tool TOOL_REGISTRY tool_name tool_input)
              = (case result_data ''image_base64'' of
                   None \<Rightarrow> ([] :: ('a, 'v) StreamEvent list)
                 | Some png \<Rightarrow> [ImageResult png (tool_name @ '' result'')])
                @ (case result_data ''audio_base64'' of
                     None \<Rightarrow> [] | Some mp3 \<Rightarrow> [AudioResult mp3 ''Voice narration'']))
    \<and> (loads (execute_tool TOOL_REGISTRY tool_name tool_input) = Caught
         \<or> loads (execute_tool TOOL_REGISTRY tool_name tool_input) = Loaded JsonOther
         \<longrightarrow> artifacts loads tool_name (execute_tool TOOL_REGISTRY tool_name tool_input)
              = ([] :: ('a, 'v) StreamEvent list))"
  using assms
  by (auto simp: process_block_def Let_def artifacts_def parses_def
      split: loads_outcome.splits)

lemma process_block_image_example:
  "emitted (snd (process_block view_tools demo_loads snapshot_block new_round))
       = [ToolUse ''snapshot'' () '''',
          ImageResult ''iVBORw0KGgo='' ''snapshot result'',
          ToolUse ''snapshot'' () snapshot_result]
   \<and> process_block view_tools demo_loads lookup_block new_round
       = (None, new_round\<lparr>has_tool_use := True,
            emitted := [ToolUse ''lookup'' () '''', ToolUse ''lookup'' () ''42''],
            tool_results := [\<lparr>tool_use_id = ''toolu_1'', result_content = ''42''\<rparr>]\<rparr>)"
  by code_simp

text \<open>
  C8. The claim fails of the code where \<open>json.loads\<close> raises an exception that is
  neither \<open>JSONDecodeError\<close> nor \<open>TypeError\<close>. The tool \<open>digits\<close> returns an integer literal
  of 5000 digits; \<open>json.loads\<close> raises \<open>ValueError\<close> on it, the \<open>except\<close> clause does not
  name that class, and the exception leaves \<open>chat\<close>: the stream holds the first tool
  event only, with no second tool event and no \<open>StreamEnd\<close>, no outcome is sent to the
  model, and the websocket handler ends the session with an \<open>error\<close> frame.
\<close>

theorem chat_unparsed_result_raises:
  "execute_tool digits_tools ''digits'' () = digits_result
   \<and> demo_loads digits_result
       = Escapes (ValueError ''Exceeds the limit (4300 digits) for integer string conversion'')
   \<and> events (chat digits_tools demo_loads digits_gateway fresh_agent ''count'')
       = [ToolUse ''digits'' () '''']
   \<and> raised (chat digits_tools demo_loads digits_gateway fresh_agent ''count'')
       = Some (ValueError ''Exceeds the limit (4300 digits) for integer string conversion'')
   \<and> length (calls (chat digits_tools demo_loads digits_gateway fresh_agent ''count'')) = 1
   \<and> frames (chat_ws_step digits_tools demo_loads digits_gateway fresh_agent ''count'')
       = [ToolFrame ''digits'' () '''',
          ErrorFrame ''Exceeds the limit (4300 digits) for integer string conversion'']
   \<and> stopped_ws (chat_ws_step digits_tools demo_loads digits_gateway fresh_agent ''count'')"
proof -
  have r: "execute_tool digits_tools ''digits'' () = digits_result"
    by (simp add: execute_tool_def digits_tools_def digits_tool_def)
  have "length digits_result = 5000" and "length snapshot_result = 32"
    and "length ''42'' = 2"
    by (simp_all add: digits_result_def snapshot_result_def)
  then have "digits_result \<noteq> snapshot_result" and "digits_result \<noteq> ''42''"
    by fastforce+
  then have d: "demo_loads digits_result
       = Escapes (ValueError ''Exceeds the limit (4300 digits) for integer string conversion'')"
    by (simp add: demo_loads_def)
  have e: "events (chat digits_tools demo_loads digits_gateway fresh_agent ''count'')
       = [ToolUse ''digits'' () '''']"
    by code_simp
  have x: "raised (chat digits_tools demo_loads digits_gateway fresh_agent ''count'')
       = Some (ValueError ''Exceeds the limit (4300 digits) for integer string conversion'')"
    by code_simp
  have c: "length (calls (chat digits_tools demo_loads digits_gateway fresh_agent ''count'')) = 1"
    by code_simp
  have f: "frames (chat_ws_step digits_tools demo_loads digits_gateway fresh_agent ''count'')
       = [ToolFrame ''digits'' () '''',
          ErrorFrame ''Exceeds the limit (4300 digits) for integer string conversion'']"
    by code_simp
  have w: "stopped_ws (chat_ws_step digits_tools demo_loads digits_gateway fresh_agent ''count'')"
    by code_simp
  from r d e x c f w show ?thesis by blast
qed

text \<open>
  C9. \<open>reset\<close> leaves the conversation empty and applying it twice is the same as
  applying it once. A received message that is the \<open>/reset\<close> sentinel (after \<open>strip\<close> and
  \<open>lower\<close>) makes no Model Gateway call, sends the one system frame
  \<open>Conversation reset.\<close> and leaves the conversation empty; received a second time, it
  sends the same frame, again makes no call, and the conversation is empty again.
\<close>

theorem reset_idempotent:
  assumes "lower (strip user_msg) = ''/reset''"
  shows "conversation (reset self) = []
    \<and> reset (reset self) = reset self
    \<and> chat_ws_step reg loads gw self user_msg
        = \<lparr>frames = [SystemFrame ''Conversation reset.''], gateway_calls = [],
           session = reset self, stopped_ws = False\<rparr>
    \<and> chat_ws_step reg loads gw (session (chat_ws_step reg loads gw self user_msg)) user_msg
        = \<lparr>frames = [SystemFrame ''Conversation reset.''], gateway_calls = [],
           session = reset self, stopped_ws = False\<rparr>"
  using assms reset_message_nonempty [OF assms]
  by (simp add: chat_ws_step_def reset_def)

theorem reset_idempotent_witness:
  "lower (strip shouted_reset) = ''/reset''
   \<and> conversation (reset busy_agent) = []
   \<and> reset (reset busy_agent) = reset busy_agent
   \<and> chat_ws_step demo_tools no_json hello_gateway busy_agent shouted_reset
       = \<lparr>frames = [SystemFrame ''Conversation reset.''], gateway_calls = [],
          session = reset busy_agent, stopped_ws = False\<rparr>
   \<and> chat_ws_step demo_tools no_json hello_gateway
         (session (chat_ws_step demo_tools no_json hello_gateway busy_agent shouted_reset))
         shouted_reset
       = \<lparr>frames = [SystemFrame ''Conversation reset.''], gateway_calls = [],
          session = reset busy_agent, stopped_ws = False\<rparr>"
proof -
  have h: "lower (strip shouted_reset) = ''/reset''"
    by code_simp
  from h reset_idempotent [OF h, of busy_agent demo_tools no_json hello_gateway]
  show ?thesis by blast
qed

end
